theory Spec2Isabelle
  imports Main "HOL-Library.Sublist"
begin

section \<open>React Console: the console renderer of src/index.js\<close>

text \<open>
  src/index.js holds two listings of the module. The first (lines 1-293) is the one with
  image and anchor support; the second (lines 294-627) is the one with the inline
  allow-list and the guarded render. A definition taken from the first listing carries the
  suffix 1, one taken from the second the suffix 2; a definition without suffix is the same
  in both.
\<close>

subsection \<open>JavaScript values\<close>

text \<open>
  Attribute and style values are JavaScript values. A string is \<open>Str s\<close>. Any other value
  (a number, undefined, ...) is \<open>NonStr t s\<close>, where \<open>t\<close> is its truthiness and \<open>s\<close> its string
  conversion: the number 180 is \<open>NonStr True ''180''\<close>, 0 is \<open>NonStr False ''0''\<close>.
  Strings are ASCII.
\<close>

datatype jsval = Str string | NonStr bool string

definition js_undefined :: jsval where
  "js_undefined = NonStr False ''undefined''"

fun toString :: "jsval \<Rightarrow> string" where
  "toString (Str s) = s"
| "toString (NonStr t s) = s"

fun truthy :: "jsval \<Rightarrow> bool" where
  "truthy (Str s) = (s \<noteq> [])"
| "truthy (NonStr t s) = t"

fun typeof_string :: "jsval \<Rightarrow> bool" where
  "typeof_string (Str s) = True"
| "typeof_string (NonStr t s) = False"

subsection \<open>Style objects\<close>

text \<open>
  A style object is the list of its own properties in iteration order (\<open>for ... in\<close>).
  Property names are CSS property identifiers, so none of them is an array index, none
  hides \<open>hasOwnProperty\<close>, and the iteration order is the insertion order. \<open>set_prop\<close> is
  the assignment \<open>obj[k] = v\<close>: an existing property keeps its place, a new one goes
  last. \<open>assign target source\<close> is \<open>Object.assign(target, source)\<close>.
\<close>

type_synonym style = "(string \<times> jsval) list"

fun set_prop :: "style \<Rightarrow> string \<Rightarrow> jsval \<Rightarrow> style" where
  "set_prop [] k v = [(k, v)]"
| "set_prop ((k', v') # obj) k v =
     (if k' = k then (k, v) # obj else (k', v') # set_prop obj k v)"

fun assign :: "style \<Rightarrow> style \<Rightarrow> style" where
  "assign target [] = target"
| "assign target ((k, v) # source) = assign (set_prop target k v) source"

subsection \<open>The style serializer (toCSSString)\<close>

definition upper_letters :: string where
  "upper_letters = ''ABCDEFGHIJKLMNOPQRSTUVWXYZ''"

definition lower_letters :: string where
  "lower_letters = ''abcdefghijklmnopqrstuvwxyz''"

definition is_upper :: "char \<Rightarrow> bool" where
  "is_upper c = (c \<in> set upper_letters)"

definition is_lower :: "char \<Rightarrow> bool" where
  "is_lower c = (c \<in> set lower_letters)"

definition lower_char :: "char \<Rightarrow> char" where
  "lower_char c =
     (case map_of (zip upper_letters lower_letters) c of Some l \<Rightarrow> l | None \<Rightarrow> c)"

definition toLowerCase :: "string \<Rightarrow> string" where
  "toLowerCase s = map lower_char s"

text \<open>\<open>prop.replace(/([A-Z])/g, "-$1")\<close> of lines 275 and 287: every match is replaced.\<close>

fun replace1 :: "string \<Rightarrow> string" where
  "replace1 [] = []"
| "replace1 (c # cs) =
     (if is_upper c then CHR ''-'' # c # replace1 cs else c # replace1 cs)"

text \<open>
  \<open>prop.replace(/([a-z])([A-Z])/, "$1-$2")\<close> of lines 609 and 621: the expression has no
  \<open>g\<close> flag, so only the leftmost match is replaced.
\<close>

fun replace2 :: "string \<Rightarrow> string" where
  "replace2 (a # b # cs) =
     (if is_lower a \<and> is_upper b then a # CHR ''-'' # b # cs else a # replace2 (b # cs))"
| "replace2 cs = cs"

definition cssProp1 :: "string \<Rightarrow> string" where
  "cssProp1 prop = toLowerCase (replace1 prop)"

definition cssProp2 :: "string \<Rightarrow> string" where
  "cssProp2 prop = toLowerCase (replace2 prop)"

text \<open>The loop of toCSSString, with \<open>cssString\<close> as the accumulator.\<close>

fun toCSSString_loop :: "(string \<Rightarrow> string) \<Rightarrow> style \<Rightarrow> string \<Rightarrow> string" where
  "toCSSString_loop conv [] cssString = cssString"
| "toCSSString_loop conv ((prop, v) # rest) cssString =
     toCSSString_loop conv rest (cssString @ conv prop @ '':'' @ toString v @ '';'')"

definition toCSSString1 :: "style \<Rightarrow> string" where
  "toCSSString1 st = toCSSString_loop cssProp1 st []"

definition toCSSString2 :: "style \<Rightarrow> string" where
  "toCSSString2 st = toCSSString_loop cssProp2 st []"

subsection \<open>Host instances\<close>

text \<open>
  The attributes the module reads from \<open>props\<close>. An attribute that is not given is
  \<open>js_undefined\<close>; a missing style override is \<open>None\<close>.
\<close>

record props =
  href :: jsval
  width :: jsval
  height :: jsval
  src :: jsval
  style :: "style option"

text \<open>
  A child is a text instance (a string) or a host instance. The instances of the first
  listing are \<open>{type, props, style, children}\<close>, those of the second
  \<open>{type, style, children}\<close>: the type parameter is \<open>props\<close> in the first and \<open>unit\<close> in the
  second.
\<close>

datatype 'p node = Text string | Element string 'p style "'p node list"

subsection \<open>The tree flattener (recursivelyConcatenate)\<close>

text \<open>
  \<open>recursivelyConcatenate(children, string, style, subs)\<close> returns the string and pushes
  onto \<open>subs\<close>; the model returns both. Lines 152-184:
\<close>

fun recursivelyConcatenate1 ::
  "props node list \<Rightarrow> string \<Rightarrow> style \<Rightarrow> string list \<Rightarrow> string \<times> string list" where
  "recursivelyConcatenate1 [] string st subs = (string, subs)"
| "recursivelyConcatenate1 (Text child # rest) string st subs =
     recursivelyConcatenate1 rest (string @ ''%c'' @ child) st (subs @ [toCSSString1 st])"
| "recursivelyConcatenate1 (Element ty p cst cs # rest) string st subs =
     (let nextStyle = assign (assign [] st) cst;
          children = (if ty = ''br'' then [Text [CHR 0x0A]]
                      else if ty = ''img'' then [Text '' '']
                      else cs);
          (string', subs') = recursivelyConcatenate1 children string nextStyle subs;
          string'' = (if ty = ''a'' \<and> truthy (href p)
                      then string' @ '' '' @ toString (href p) else string')
      in recursivelyConcatenate1 rest string'' st subs')"

text \<open>Lines 507-534:\<close>

fun recursivelyConcatenate2 ::
  "unit node list \<Rightarrow> string \<Rightarrow> style \<Rightarrow> string list \<Rightarrow> string \<times> string list" where
  "recursivelyConcatenate2 [] string st subs = (string, subs)"
| "recursivelyConcatenate2 (Text child # rest) string st subs =
     recursivelyConcatenate2 rest (string @ ''%c'' @ child) st (subs @ [toCSSString2 st])"
| "recursivelyConcatenate2 (Element ty p cst cs # rest) string st subs =
     (if ty = ''br'' then recursivelyConcatenate2 rest (string @ [CHR 0x0A]) st subs
      else
        (let (string', subs') =
               recursivelyConcatenate2 cs string (assign (assign [] st) cst) subs
         in recursivelyConcatenate2 rest string' st subs'))"

subsection \<open>The trace of a flattening\<close>

text \<open>
  What one flattening writes, in order: \<open>Run css t\<close> for a marker \<open>%c\<close> followed by the
  text \<open>t\<close>, with \<open>css\<close> the entry pushed onto \<open>subs\<close> at that moment; \<open>Lit s\<close> for text
  written with no marker and no entry. The traces below follow the two flatteners case by
  case; \<open>rc1_trace\<close> and \<open>rc2_trace\<close> prove that the flatteners return exactly what their
  traces hold.
\<close>

datatype item = Run string string | Lit string

fun emit :: "item \<Rightarrow> string" where
  "emit (Run css t) = ''%c'' @ t"
| "emit (Lit s) = s"

fun entries :: "item list \<Rightarrow> string list" where
  "entries [] = []"
| "entries (Run css t # tr) = css # entries tr"
| "entries (Lit s # tr) = entries tr"

fun trace1 :: "props node list \<Rightarrow> style \<Rightarrow> item list" where
  "trace1 [] st = []"
| "trace1 (Text child # rest) st = Run (toCSSString1 st) child # trace1 rest st"
| "trace1 (Element ty p cst cs # rest) st =
     (if ty = ''br'' then [Run (toCSSString1 (assign (assign [] st) cst)) [CHR 0x0A]]
      else if ty = ''img'' then [Run (toCSSString1 (assign (assign [] st) cst)) '' '']
      else trace1 cs (assign (assign [] st) cst))
     @ (if ty = ''a'' \<and> truthy (href p) then [Lit ('' '' @ toString (href p))] else [])
     @ trace1 rest st"

fun trace2 :: "unit node list \<Rightarrow> style \<Rightarrow> item list" where
  "trace2 [] st = []"
| "trace2 (Text child # rest) st = Run (toCSSString2 st) child # trace2 rest st"
| "trace2 (Element ty p cst cs # rest) st =
     (if ty = ''br'' then [Lit [CHR 0x0A]]
      else trace2 cs (assign (assign [] st) cst))
     @ trace2 rest st"

text \<open>Attributes with nothing given, for the examples.\<close>

definition no_props :: props where
  "no_props = \<lparr>href = js_undefined, width = js_undefined, height = js_undefined,
     src = js_undefined, style = None\<rparr>"

subsection \<open>Default styles and instance creation\<close>

datatype error = Error string | TypeError

text \<open>styleForType(type, props), lines 193-268.\<close>

definition styleForType1 :: "string \<Rightarrow> props \<Rightarrow> style" where
  "styleForType1 ty p =
     (if ty = ''a'' then [(''color'', Str ''blue'')]
      else if ty = ''abbr'' then
        [(''textDecoration'', Str ''underline dotted''), (''fontStyle'', Str ''italic''),
         (''fontWeight'', Str ''lighter'')]
      else if ty = ''b'' \<or> ty = ''strong'' then [(''fontWeight'', Str ''bolder'')]
      else if ty = ''del'' \<or> ty = ''s'' then [(''textDecoration'', Str ''line-through'')]
      else if ty = ''em'' \<or> ty = ''i'' then [(''fontStyle'', Str ''italic'')]
      else if ty = ''img'' then
        [(''fontSize'', NonStr False ''0''),
         (''paddingLeft'',
            Str (if typeof_string (width p) then toString (width p)
                 else toString (width p) @ ''px'')),
         (''paddingTop'',
            Str (if typeof_string (height p) then toString (height p)
                 else toString (height p) @ ''px'')),
         (''backgroundImage'', Str (''url('' @ toString (src p) @ '')''))]
      else if ty = ''ins'' \<or> ty = ''u'' then [(''textDecoration'', Str ''underline'')]
      else if ty = ''mark'' then
        [(''backgroundColor'', Str ''yellow''), (''color'', Str ''black'')]
      else if ty = ''small'' then [(''fontSize'', Str ''smaller'')]
      else if ty = ''sub'' then
        [(''fontSize'', Str ''smaller''), (''verticalAlign'', Str ''sub'')]
      else if ty = ''sup'' then
        [(''fontSize'', Str ''smaller''), (''verticalAlign'', Str ''super'')]
      else [])"

text \<open>styleForType(type), lines 542-602.\<close>

definition styleForType2 :: "string \<Rightarrow> style" where
  "styleForType2 ty =
     (if ty = ''abbr'' then
        [(''textDecoration'', Str ''underline dotted''), (''fontStyle'', Str ''italics''),
         (''fontWeight'', Str ''lighter'')]
      else if ty = ''b'' \<or> ty = ''strong'' then [(''fontWeight'', Str ''bolder'')]
      else if ty = ''del'' \<or> ty = ''s'' then [(''textDecoration'', Str ''line-through'')]
      else if ty = ''em'' \<or> ty = ''i'' then [(''fontStyle'', Str ''italics'')]
      else if ty = ''ins'' \<or> ty = ''u'' then [(''textDecoration'', Str ''underline'')]
      else if ty = ''mark'' then
        [(''backgroundColor'', Str ''yellow''), (''color'', Str ''black'')]
      else if ty = ''small'' then [(''fontSize'', Str ''smaller'')]
      else if ty = ''sub'' then
        [(''fontSize'', Str ''smaller''), (''verticalAlign'', Str ''sub'')]
      else if ty = ''sup'' then
        [(''fontSize'', Str ''smaller''), (''verticalAlign'', Str ''super'')]
      else [])"

text \<open>The allow-list of lines 356-388.\<close>

definition inlineElements :: "string list" where
  "inlineElements =
     [''a'', ''abbr'', ''b'', ''bdi'', ''bdo'', ''br'', ''cite'', ''code'', ''data'', ''dfn'',
      ''em'', ''i'', ''kbd'', ''mark'', ''q'', ''rb'', ''rp'', ''rt'', ''rtc'', ''ruby'', ''s'',
      ''samp'', ''small'', ''span'', ''strong'', ''sub'', ''sup'', ''time'', ''u'', ''var'',
      ''wbr'']"

text \<open>\<open>Object.assign(target, props.style)\<close>: an undefined source is skipped.\<close>

definition assign_opt :: "style \<Rightarrow> style option \<Rightarrow> style" where
  "assign_opt target source = (case source of None \<Rightarrow> target | Some s \<Rightarrow> assign target s)"

text \<open>createInstance(type, props), lines 70-77: no statement of it throws.\<close>

definition createInstance1 :: "string \<Rightarrow> props \<Rightarrow> props node" where
  "createInstance1 ty p = Element ty p (assign_opt (styleForType1 ty p) (style p)) []"

text \<open>createInstance(type, props), lines 398-410.\<close>

definition createInstance2 :: "string \<Rightarrow> props \<Rightarrow> error + unit node" where
  "createInstance2 ty p =
     (if ty \<notin> set inlineElements
      then Inl (Error (''Invalid element: '' @ ty @ '' is not an inline element.''))
      else Inr (Element ty () (assign_opt (styleForType2 ty) (style p)) []))"

definition createTextInstance :: "string \<Rightarrow> 'p node" where
  "createTextInstance text = Text text"

text \<open>
  appendInitialChild(parentInstance, child) pushes onto \<open>parentInstance.children\<close>; a text
  instance is a string and has no such array.
\<close>

fun appendInitialChild :: "'p node \<Rightarrow> 'p node \<Rightarrow> error + 'p node" where
  "appendInitialChild (Element ty p st cs) child = Inr (Element ty p st (cs @ [child]))"
| "appendInitialChild (Text t) child = Inl TypeError"

subsection \<open>The output target and the render session\<close>

text \<open>
  The output target is a console-like object, given by the names of the methods it has.
  Calling one of them records the call and returns; calling a name it does not have is
  a TypeError (\<open>context[method]\<close> is undefined). The calls made so far are threaded through
  as a list.
\<close>

type_synonym target = "string list"

datatype outarg = S string | E error

type_synonym call = "string \<times> outarg list"

definition invoke :: "target \<Rightarrow> string \<Rightarrow> outarg list \<Rightarrow> call list \<Rightarrow> error + call list" where
  "invoke tgt m args log = (if m \<in> set tgt then Inr (log @ [(m, args)]) else Inl TypeError)"

text \<open>
  The container \<open>{context, method, committed}\<close> that render creates; the fields
  \<open>context\<close> and \<open>method\<close> are \<open>ctx\<close> and \<open>meth\<close> here.
\<close>

record container =
  ctx :: target
  meth :: string
  committed :: bool

text \<open>replaceContainerChildren(container, newChildren), lines 95-105 and 438-448.\<close>

definition replaceContainerChildren1 ::
  "container \<Rightarrow> props node list \<Rightarrow> call list \<Rightarrow> error + call list" where
  "replaceContainerChildren1 c newChildren log =
     (if committed c then Inr log
      else (case recursivelyConcatenate1 newChildren [] [] [] of
              (string, subs) \<Rightarrow> invoke (ctx c) (meth c) (S string # map S subs) log))"

definition replaceContainerChildren2 ::
  "container \<Rightarrow> unit node list \<Rightarrow> call list \<Rightarrow> error + call list" where
  "replaceContainerChildren2 c newChildren log =
     (if committed c then Inr log
      else (case recursivelyConcatenate2 newChildren [] [] [] of
              (string, subs) \<Rightarrow> invoke (ctx c) (meth c) (S string # map S subs) log))"

definition resetAfterCommit :: "container \<Rightarrow> container" where
  "resetAfterCommit containerInfo = containerInfo\<lparr>committed := True\<rparr>"

text \<open>prepareForCommit, line 117 (empty) and lines 464-468.\<close>

definition prepareForCommit1 :: "container \<Rightarrow> error + unit" where
  "prepareForCommit1 containerInfo = Inr ()"

definition prepareForCommit2 :: "container \<Rightarrow> error + unit" where
  "prepareForCommit2 containerInfo =
     (if committed containerInfo then Inl (Error ''Console has already committed this root.'')
      else Inr ())"

subsection \<open>The reconciliation engine\<close>

text \<open>
  The reconciliation engine (the package react-reconciler) is not part of the repository.
  Sections 4.5 and 6 of the specification describe what the module relies on: the engine
  builds the host tree by calling the host configuration (an instance per host element,
  children appended in order), signals readiness once, and an error raised by the host
  configuration reaches the caller of \<open>updateContainer\<close>.
\<close>

text \<open>
  Modelled from the spec: the tree of host elements and texts that a root element resolves
  to (tag, attributes, children), the input of the engine.
\<close>

datatype relement = RText string | RHost string props "relement list" | RFragment "relement list"

text \<open>
  Modelled from the spec: the engine appends the children of an instance in order, each by
  one call of appendInitialChild.
\<close>

fun append_all :: "'p node \<Rightarrow> 'p node list \<Rightarrow> error + 'p node" where
  "append_all inst [] = Inr inst"
| "append_all inst (c # cs) =
     (case appendInitialChild inst c of Inl e \<Rightarrow> Inl e | Inr inst' \<Rightarrow> append_all inst' cs)"

text \<open>
  Modelled from the spec: construction of the host tree by the engine. The instances of
  the children are created before the instance of their parent, left to right, with the
  createInstance \<open>ci\<close> of the host configuration; the first error ends the construction.
\<close>

fun build :: "(string \<Rightarrow> props \<Rightarrow> error + 'p node) \<Rightarrow> relement \<Rightarrow> error + 'p node list"
  and build_list :: "(string \<Rightarrow> props \<Rightarrow> error + 'p node) \<Rightarrow> relement list \<Rightarrow> error + 'p node list"
  where
  "build ci (RText t) = Inr [createTextInstance t]"
| "build ci (RFragment kids) = build_list ci kids"
| "build ci (RHost ty p kids) =
     (case build_list ci kids of
        Inl e \<Rightarrow> Inl e
      | Inr cs \<Rightarrow>
          (case ci ty p of
             Inl e \<Rightarrow> Inl e
           | Inr inst \<Rightarrow> (case append_all inst cs of Inl e \<Rightarrow> Inl e | Inr inst' \<Rightarrow> Inr [inst'])))"
| "build_list ci [] = Inr []"
| "build_list ci (k # ks) =
     (case build ci k of
        Inl e \<Rightarrow> Inl e
      | Inr a \<Rightarrow> (case build_list ci ks of Inl e \<Rightarrow> Inl e | Inr b \<Rightarrow> Inr (a @ b)))"

text \<open>
  Modelled from the spec: one readiness signal of the engine on a container with the
  children \<open>kids\<close>. The engine calls prepareForCommit, replaceContainerChildren and
  resetAfterCommit in this order; an error raised by one of them ends the signal and
  leaves the container as it was.
\<close>

definition commit ::
  "(container \<Rightarrow> error + unit) \<Rightarrow> (container \<Rightarrow> 'p node list \<Rightarrow> call list \<Rightarrow> error + call list)
     \<Rightarrow> container \<Rightarrow> 'p node list \<Rightarrow> call list \<Rightarrow> error option \<times> container \<times> call list" where
  "commit prepare replace c kids log =
     (case prepare c of
        Inl e \<Rightarrow> (Some e, c, log)
      | Inr u \<Rightarrow>
          (case replace c kids log of
             Inl e \<Rightarrow> (Some e, c, log)
           | Inr log' \<Rightarrow> (None, resetAfterCommit c, log')))"

text \<open>The signal with the host configuration of the first and of the second listing.\<close>

definition commit1 ::
  "container \<Rightarrow> props node list \<Rightarrow> call list \<Rightarrow> error option \<times> container \<times> call list" where
  "commit1 = commit prepareForCommit1 replaceContainerChildren1"

definition commit2 ::
  "container \<Rightarrow> unit node list \<Rightarrow> call list \<Rightarrow> error option \<times> container \<times> call list" where
  "commit2 = commit prepareForCommit2 replaceContainerChildren2"

text \<open>
  Modelled from the spec: a sequence of readiness signals on one session, each with the
  children it commits. An error raised by a signal stays with the engine.
\<close>

fun signals ::
  "(container \<Rightarrow> 'p node list \<Rightarrow> call list \<Rightarrow> error option \<times> container \<times> call list)
     \<Rightarrow> 'p node list list \<Rightarrow> container \<Rightarrow> call list \<Rightarrow> container \<times> call list" where
  "signals cm [] c log = (c, log)"
| "signals cm (kids # rest) c log =
     (case cm c kids log of (err, c', log') \<Rightarrow> signals cm rest c' log')"

text \<open>
  Modelled from the spec: \<open>reconciler.updateContainer(root, container, null, null)\<close>, with the
  host configuration of the first and of the second listing: the engine builds the host
  tree and signals readiness once; an error of the construction or of the signal reaches
  the caller.
\<close>

definition updateContainer1 ::
  "relement \<Rightarrow> container \<Rightarrow> call list \<Rightarrow> error option \<times> container \<times> call list" where
  "updateContainer1 root c log =
     (case build (\<lambda>ty p. Inr (createInstance1 ty p)) root of
        Inl e \<Rightarrow> (Some e, c, log)
      | Inr kids \<Rightarrow> commit1 c kids log)"

definition updateContainer2 ::
  "relement \<Rightarrow> container \<Rightarrow> call list \<Rightarrow> error option \<times> container \<times> call list" where
  "updateContainer2 root c log =
     (case build createInstance2 root of
        Inl e \<Rightarrow> (Some e, c, log)
      | Inr kids \<Rightarrow> commit2 c kids log)"

subsection \<open>render\<close>

text \<open>
  render(root, context, method), lines 129-140 and 479-495, with the engine's
  \<open>updateContainer\<close> as a parameter. The result is the exception that leaves render, if
  any, and the calls made on the output target.
\<close>

definition render1_with ::
  "('r \<Rightarrow> container \<Rightarrow> call list \<Rightarrow> error option \<times> container \<times> call list)
     \<Rightarrow> 'r \<Rightarrow> target \<Rightarrow> string \<Rightarrow> call list \<Rightarrow> error option \<times> call list" where
  "render1_with upd root tgt m log =
     (case upd root \<lparr>ctx = tgt, meth = m, committed = False\<rparr> log of
        (err, c, log') \<Rightarrow> (err, log'))"

definition render2_with ::
  "('r \<Rightarrow> container \<Rightarrow> call list \<Rightarrow> error option \<times> container \<times> call list)
     \<Rightarrow> 'r \<Rightarrow> target \<Rightarrow> string \<Rightarrow> call list \<Rightarrow> error option \<times> call list" where
  "render2_with upd root tgt m log =
     (case upd root \<lparr>ctx = tgt, meth = m, committed = False\<rparr> log of
        (None, c, log') \<Rightarrow> (None, log')
      | (Some e, c, log') \<Rightarrow>
          (case invoke tgt ''error'' [E e] log' of
             Inl e' \<Rightarrow> (Some e', log')
           | Inr log'' \<Rightarrow> (None, log'')))"

definition render1 :: "relement \<Rightarrow> target \<Rightarrow> string \<Rightarrow> call list \<Rightarrow> error option \<times> call list" where
  "render1 = render1_with updateContainer1"

definition render2 :: "relement \<Rightarrow> target \<Rightarrow> string \<Rightarrow> call list \<Rightarrow> error option \<times> call list" where
  "render2 = render2_with updateContainer2"

text \<open>The methods of the browser console that the module wraps (lines 19-28), for the examples.\<close>

definition methods :: "string list" where
  "methods = [''debug'', ''error'', ''info'', ''log'', ''warn'', ''group'', ''groupCollapsed'',
     ''trace'']"

subsection \<open>The interception wrapper (overrides)\<close>

text \<open>
  An argument of a wrapped method: a React element (with the host tree it resolves to),
  \<open>undefined\<close>, \<open>null\<close>, or any other value \<open>v\<close>, for which the flag records whether
  \<open>v.type\<close> is a React element. The type of a React element is a tag name or a
  component, not an element. Reading a property of \<open>undefined\<close> or \<open>null\<close> is a TypeError.
\<close>

datatype jsarg = AElement relement | AUndefined | ANull | AOther bool

fun isElement :: "jsarg \<Rightarrow> bool" where
  "isElement (AElement e) = True"
| "isElement a = False"

fun isElement_type :: "jsarg \<Rightarrow> error + bool" where
  "isElement_type (AElement e) = Inr False"
| "isElement_type AUndefined = Inl TypeError"
| "isElement_type ANull = Inl TypeError"
| "isElement_type (AOther t) = Inr t"

text \<open>\<open>arguments[0]\<close>\<close>

fun arguments0 :: "jsarg list \<Rightarrow> jsarg" where
  "arguments0 [] = AUndefined"
| "arguments0 (a # as) = a"

text \<open>What a wrapped method does: it calls render, or the original method of the console.\<close>

datatype action = CallRender jsarg string | CallOriginal string "jsarg list"

text \<open>The wrapper of lines 41-51.\<close>

definition overrides1 :: "string \<Rightarrow> jsarg list \<Rightarrow> action" where
  "overrides1 name arguments =
     (let root = arguments0 arguments
      in if length arguments = 1 \<and> isElement root then CallRender root name
         else CallOriginal name arguments)"

text \<open>The wrapper of lines 334-344: \<open>arguments.length === 1 || isElement(root.type)\<close>.\<close>

definition overrides2 :: "string \<Rightarrow> jsarg list \<Rightarrow> error + action" where
  "overrides2 name arguments =
     (let root = arguments0 arguments
      in if length arguments = 1 then Inr (CallRender root name)
         else (case isElement_type root of
                 Inl e \<Rightarrow> Inl e
               | Inr t \<Rightarrow> if t then Inr (CallRender root name)
                          else Inr (CallOriginal name arguments)))"

subsection \<open>The name conversion as the specification words it\<close>

text \<open>
  The conversion of the specification's claim about the serializer: a hyphen at every
  boundary between a lower-case letter and an upper-case letter that follows it, then the
  whole name in lower case. \<open>spec_cssProp\<close> is compared with \<open>cssProp1\<close> and \<open>cssProp2\<close>
  below; it is not taken from the code.
\<close>

fun hyphenate_boundaries :: "string \<Rightarrow> string" where
  "hyphenate_boundaries (a # b # cs) =
     (if is_lower a \<and> is_upper b then a # CHR ''-'' # hyphenate_boundaries (b # cs)
      else a # hyphenate_boundaries (b # cs))"
| "hyphenate_boundaries cs = cs"

definition spec_cssProp :: "string \<Rightarrow> string" where
  "spec_cssProp prop = toLowerCase (hyphenate_boundaries prop)"

text \<open>The number of lower-to-upper boundaries of a name.\<close>

fun boundaries :: "string \<Rightarrow> nat" where
  "boundaries (a # b # cs) = (if is_lower a \<and> is_upper b then 1 else 0) + boundaries (b # cs)"
| "boundaries cs = 0"

text \<open>
  \<open>uppers_after prev cs\<close>: every upper-case letter of \<open>cs\<close> directly follows a lower-case
  letter, where \<open>prev\<close> tells whether the character before \<open>cs\<close> is one.
\<close>

fun uppers_after :: "bool \<Rightarrow> string \<Rightarrow> bool" where
  "uppers_after prev [] = True"
| "uppers_after prev (c # cs) = ((is_upper c \<longrightarrow> prev) \<and> uppers_after (is_lower c) cs)"

definition uppers_follow_lowers :: "string \<Rightarrow> bool" where
  "uppers_follow_lowers prop = uppers_after False prop"

subsection \<open>Markers in a format string\<close>

text \<open>
  A marker is an occurrence of the two characters \<open>%c\<close> in a format string, read left to
  right; the other directives of the console's format language (such as \<open>%%\<close>) are not
  interpreted. \<open>count_markers\<close> counts the markers, \<open>split_markers\<close> gives the pieces of
  text they separate: the piece before the first marker, then the piece that follows
  each marker, to which the style argument of that marker applies.
\<close>

fun count_markers :: "string \<Rightarrow> nat" where
  "count_markers (a # b # cs) =
     (if a = CHR ''%'' \<and> b = CHR ''c'' then Suc (count_markers cs) else count_markers (b # cs))"
| "count_markers cs = 0"

fun split_markers :: "string \<Rightarrow> string list" where
  "split_markers (a # b # cs) =
     (if a = CHR ''%'' \<and> b = CHR ''c'' then [] # split_markers cs
      else (case split_markers (b # cs) of [] \<Rightarrow> [[a]] | p # ps \<Rightarrow> (a # p) # ps))"
| "split_markers cs = [cs]"

text \<open>
  The text leaves of a trace with the entry pushed for each, and the number of markers
  that stand inside the texts a trace copies into the format string (the texts of leaves
  and the appended anchor targets).
\<close>

fun runs :: "item list \<Rightarrow> (string \<times> string) list" where
  "runs [] = []"
| "runs (Run css t # tr) = (css, t) # runs tr"
| "runs (Lit s # tr) = runs tr"

fun stray :: "item list \<Rightarrow> nat" where
  "stray [] = 0"
| "stray (Run css t # tr) = count_markers t + stray tr"
| "stray (Lit s # tr) = count_markers s + stray tr"

text \<open>Auxiliary notions of the proofs about markers.\<close>

fun glue :: "string \<Rightarrow> string list \<Rightarrow> string list" where
  "glue t [] = [t]"
| "glue t (p # ps) = (t @ p) # ps"

fun pieces :: "item list \<Rightarrow> string list" where
  "pieces [] = [[]]"
| "pieces (Run css t # tr) = [] # glue t (pieces tr)"
| "pieces (Lit s # tr) = glue s (pieces tr)"

definition no_c :: "string \<Rightarrow> bool" where
  "no_c ys = (case ys of [] \<Rightarrow> True | y # r \<Rightarrow> y \<noteq> CHR ''c'')"

fun lit_ok :: "item list \<Rightarrow> bool" where
  "lit_ok [] = True"
| "lit_ok (Run css t # tr) = lit_ok tr"
| "lit_ok (Lit s # tr) = (s \<noteq> [] \<and> no_c s \<and> lit_ok tr)"

section \<open>Properties\<close>

subsection \<open>The flatteners and their traces\<close>

lemma entries_append: "entries (xs @ ys) = entries xs @ entries ys"
  by (induction xs rule: entries.induct) simp_all

lemma rc1_trace:
  "recursivelyConcatenate1 xs string st subs =
     (string @ concat (map emit (trace1 xs st)), subs @ entries (trace1 xs st))"
proof (induction xs st arbitrary: string subs rule: trace1.induct)
  case (1 st)
  show ?case by simp
next
  case (2 child rest st)
  show ?case by (simp add: "2.IH")
next
  case (3 ty p cst cs rest st)
  show ?case
    by (simp add: "3.IH" entries_append)
qed

lemma rc2_trace:
  "recursivelyConcatenate2 xs string st subs =
     (string @ concat (map emit (trace2 xs st)), subs @ entries (trace2 xs st))"
proof (induction xs st arbitrary: string subs rule: trace2.induct)
  case (1 st)
  show ?case by simp
next
  case (2 child rest st)
  show ?case by (simp add: "2.IH")
next
  case (3 ty p cst cs rest st)
  show ?case
    by (simp add: "3.IH" entries_append)
qed

lemma trace1_append: "trace1 (xs @ ys) st = trace1 xs st @ trace1 ys st"
  by (induction xs st rule: trace1.induct) simp_all

lemma trace2_append: "trace2 (xs @ ys) st = trace2 xs st @ trace2 ys st"
  by (induction xs st rule: trace2.induct) simp_all

subsection \<open>C10: flattening distributes over the concatenation of child lists\<close>

text \<open>
  C10. In both listings, flattening \<open>xs @ ys\<close> under an inherited style \<open>s\<close> gives the
  format string of \<open>xs\<close> followed by that of \<open>ys\<close>, and the style arguments of \<open>xs\<close> followed
  by those of \<open>ys\<close>; flattening the empty child list gives the empty format string and no
  style argument.
\<close>

theorem flatten_append:
  "recursivelyConcatenate1 (xs @ ys) [] s [] =
     (fst (recursivelyConcatenate1 xs [] s []) @ fst (recursivelyConcatenate1 ys [] s []),
      snd (recursivelyConcatenate1 xs [] s []) @ snd (recursivelyConcatenate1 ys [] s []))
   \<and> recursivelyConcatenate1 [] [] s [] = ([], [])
   \<and> recursivelyConcatenate2 (us @ vs) [] s [] =
     (fst (recursivelyConcatenate2 us [] s []) @ fst (recursivelyConcatenate2 vs [] s []),
      snd (recursivelyConcatenate2 us [] s []) @ snd (recursivelyConcatenate2 vs [] s []))
   \<and> recursivelyConcatenate2 [] [] s [] = ([], [])"
  by (simp add: rc1_trace rc2_trace trace1_append trace2_append entries_append)

theorem flatten_append_witness:
  "recursivelyConcatenate1
     ([Text ''Hello, ''] @ [Element ''b'' no_props [(''fontWeight'', Str ''bolder'')] [Text ''Chris'']])
     [] [(''color'', Str ''red'')] [] =
   (''%cHello, %cChris'', [''color:red;'', ''color:red;font-weight:bolder;''])
   \<and> recursivelyConcatenate2
     ([Text ''Hello, ''] @ [Element ''b'' () [(''fontWeight'', Str ''bolder'')] [Text ''Chris'']])
     [] [(''color'', Str ''red'')] [] =
   (''%cHello, %cChris'', [''color:red;'', ''color:red;font-weight:bolder;''])"
proof -
  have a: "recursivelyConcatenate1 [Text ''Hello, ''] [] [(''color'', Str ''red'')] [] =
      (''%cHello, '', [''color:red;''])"
    by code_simp
  have b: "recursivelyConcatenate1
      [Element ''b'' no_props [(''fontWeight'', Str ''bolder'')] [Text ''Chris'']]
      [] [(''color'', Str ''red'')] [] = (''%cChris'', [''color:red;font-weight:bolder;''])"
    by code_simp
  have c: "recursivelyConcatenate2 [Text ''Hello, ''] [] [(''color'', Str ''red'')] [] =
      (''%cHello, '', [''color:red;''])"
    by code_simp
  have d: "recursivelyConcatenate2
      [Element ''b'' () [(''fontWeight'', Str ''bolder'')] [Text ''Chris'']]
      [] [(''color'', Str ''red'')] [] = (''%cChris'', [''color:red;font-weight:bolder;''])"
    by code_simp
  show ?thesis
    using flatten_append [of "[Text ''Hello, '']"
        "[Element ''b'' no_props [(''fontWeight'', Str ''bolder'')] [Text ''Chris'']]"
        "[(''color'', Str ''red'')]" "[Text ''Hello, '']"
        "[Element ''b'' () [(''fontWeight'', Str ''bolder'')] [Text ''Chris'']]"]
    by (simp only: a b c d fst_conv snd_conv append.simps)
qed

subsection \<open>C2: line breaks\<close>

text \<open>
  C2, as the code has it. In the listing of lines 507-534 a \<open>br\<close> element, whatever its
  children and the inherited style, appends exactly one newline to the format string,
  pushes no entry and is not entered. In the listing of lines 152-184 its children are
  replaced by the single text \<open>"\n"\<close>, which is then flattened as a text leaf: the marker
  \<open>%c\<close> and one newline are appended and one entry (the inherited style merged with the
  element's own) is pushed; the element's children are not entered either.
\<close>

theorem br_flatten:
  "recursivelyConcatenate2 (Element ''br'' u cst cs # rest) string st subs =
     recursivelyConcatenate2 rest (string @ [CHR 0x0A]) st subs
   \<and> recursivelyConcatenate1 (Element ''br'' p cst' cs' # rest') string st subs =
     recursivelyConcatenate1 rest' (string @ ''%c'' @ [CHR 0x0A]) st
       (subs @ [toCSSString1 (assign (assign [] st) cst')])"
  by simp

theorem br_flatten_witness:
  "recursivelyConcatenate2 [Element ''br'' () [] [Text ''x'']] ''a'' [] [] = (''a'' @ [CHR 0x0A], [])
   \<and> recursivelyConcatenate1 [Element ''br'' no_props [] [Text ''x'']] ''a'' [] [] =
     (''a%c'' @ [CHR 0x0A], [[]])"
  using br_flatten [of "()" "[]" "[Text ''x'']" "[]" "''a''" "[]" "[]" no_props "[]" "[Text ''x'']" "[]"]
  by (simp add: toCSSString1_def)

theorem br_pushes_entry_counterexample:
  "recursivelyConcatenate1 [Element ''br'' no_props [] []] [] [] [] = (''%c'' @ [CHR 0x0A], [[]])
   \<and> recursivelyConcatenate1 [Element ''br'' no_props [] []] [] [] [] \<noteq> ([CHR 0x0A], [])"
  by (simp add: toCSSString1_def)

subsection \<open>C3: tag validation at construction\<close>

text \<open>
  C3, as the code has it. In the listing of lines 356-410, constructing an instance with a
  tag outside \<open>inlineElements\<close> throws an Error whose message is
  \<open>Invalid element: <tag> is not an inline element.\<close>, and with a tag inside the list it
  returns an instance. In the listing of lines 70-77 there is no allow-list and
  construction returns an instance for every tag.
\<close>

theorem createInstance_validation:
  "(ty \<notin> set inlineElements \<longrightarrow>
      createInstance2 ty p =
        Inl (Error (''Invalid element: '' @ ty @ '' is not an inline element.'')))
   \<and> (ty \<in> set inlineElements \<longrightarrow>
      createInstance2 ty p = Inr (Element ty () (assign_opt (styleForType2 ty) (style p)) []))
   \<and> createInstance1 ty' p = Element ty' p (assign_opt (styleForType1 ty' p) (style p)) []"
  by (simp add: createInstance2_def createInstance1_def)

theorem createInstance_validation_witness:
  "createInstance2 ''div'' no_props =
      Inl (Error ''Invalid element: div is not an inline element.'')
   \<and> createInstance2 ''strong'' no_props =
      Inr (Element ''strong'' () [(''fontWeight'', Str ''bolder'')] [])
   \<and> createInstance1 ''strong'' no_props =
      Element ''strong'' no_props [(''fontWeight'', Str ''bolder'')] []"
proof -
  have a: "''div'' \<notin> set inlineElements"
    by (simp add: inlineElements_def)
  have b: "''strong'' \<in> set inlineElements"
    by (simp add: inlineElements_def)
  have c: "style no_props = None"
    by (simp add: no_props_def)
  show ?thesis
    using createInstance_validation [of "''div''" no_props "''strong''"]
      createInstance_validation [of "''strong''" no_props "''strong''"] a b
    by (simp add: c assign_opt_def styleForType2_def styleForType1_def)
qed

theorem createInstance_div_counterexample:
  "''div'' \<notin> set inlineElements
   \<and> createInstance1 ''div'' no_props = Element ''div'' no_props [] []"
  by (simp add: inlineElements_def createInstance1_def styleForType1_def assign_opt_def
      no_props_def)

subsection \<open>C5: anchors\<close>

text \<open>
  C5, as the code has it. In the listing of lines 152-184, an anchor whose \<open>href\<close> is truthy
  (a non-empty string) is flattened by flattening its children under the merged style and
  then appending a space and the target to the format string; the style arguments are
  those of the children, so nothing is pushed for the target. With a falsy \<open>href\<close> (absent
  or the empty string) nothing is appended. In the listing of lines 507-534 instances
  carry no attributes and an anchor is flattened as any other element, nothing appended.
\<close>

theorem anchor_flatten:
  "(truthy (href p) \<longrightarrow>
      recursivelyConcatenate1 [Element ''a'' p cst cs] string st subs =
        (fst (recursivelyConcatenate1 cs string (assign (assign [] st) cst) subs)
           @ '' '' @ toString (href p),
         snd (recursivelyConcatenate1 cs string (assign (assign [] st) cst) subs)))
   \<and> (\<not> truthy (href p) \<longrightarrow>
      recursivelyConcatenate1 [Element ''a'' p cst cs] string st subs =
        recursivelyConcatenate1 cs string (assign (assign [] st) cst) subs)
   \<and> recursivelyConcatenate2 [Element ''a'' u cst cs'] string st subs =
        recursivelyConcatenate2 cs' string (assign (assign [] st) cst) subs"
  by (simp add: split_beta Let_def)

theorem anchor_flatten_witness:
  "recursivelyConcatenate1
     [Element ''a'' (no_props\<lparr>href := Str ''https://google.com''\<rparr>) [(''color'', Str ''blue'')]
        [Text ''Google'']] [] [] [] =
     (''%cGoogle https://google.com'', [''color:blue;''])
   \<and> recursivelyConcatenate1
     [Element ''a'' no_props [(''color'', Str ''blue'')] [Text ''Google'']] [] [] [] =
     (''%cGoogle'', [''color:blue;''])
   \<and> recursivelyConcatenate2 [Element ''a'' () [] [Text ''Google'']] [] [] [] =
     (''%cGoogle'', [[]])"
proof -
  let ?p = "no_props\<lparr>href := Str ''https://google.com''\<rparr>"
  let ?st = "[(''color'', Str ''blue'')]"
  have t: "truthy (href ?p)"
    by simp
  have f: "\<not> truthy (href no_props)"
    by (simp add: no_props_def js_undefined_def)
  have "recursivelyConcatenate1 [Element ''a'' ?p ?st [Text ''Google'']] [] [] [] =
      (fst (recursivelyConcatenate1 [Text ''Google''] [] (assign (assign [] []) ?st) [])
         @ '' '' @ toString (href ?p),
       snd (recursivelyConcatenate1 [Text ''Google''] [] (assign (assign [] []) ?st) []))"
    using anchor_flatten [of ?p ?st "[Text ''Google'']" "[]" "[]" "[]"] t by blast
  also have "\<dots> = (''%cGoogle https://google.com'', [''color:blue;''])"
    by code_simp
  finally have 1: "recursivelyConcatenate1 [Element ''a'' ?p ?st [Text ''Google'']] [] [] [] =
      (''%cGoogle https://google.com'', [''color:blue;''])" .
  have "recursivelyConcatenate1 [Element ''a'' no_props ?st [Text ''Google'']] [] [] [] =
      recursivelyConcatenate1 [Text ''Google''] [] (assign (assign [] []) ?st) []"
    using anchor_flatten [of no_props ?st "[Text ''Google'']" "[]" "[]" "[]"] f by blast
  also have "\<dots> = (''%cGoogle'', [''color:blue;''])"
    by code_simp
  finally have 2: "recursivelyConcatenate1 [Element ''a'' no_props ?st [Text ''Google'']] [] [] [] =
      (''%cGoogle'', [''color:blue;''])" .
  have "recursivelyConcatenate2 [Element ''a'' () [] [Text ''Google'']] [] [] [] =
      recursivelyConcatenate2 [Text ''Google''] [] (assign (assign [] []) []) []"
    using anchor_flatten [of no_props "[]" "[]" "[]" "[]" "[]" "()" "[Text ''Google'']"] by blast
  also have "\<dots> = (''%cGoogle'', [[]])"
    by code_simp
  finally have 3: "recursivelyConcatenate2 [Element ''a'' () [] [Text ''Google'']] [] [] [] =
      (''%cGoogle'', [[]])" .
  from 1 2 3 show ?thesis by blast
qed

theorem anchor_target_counterexample:
  "recursivelyConcatenate1
     [Element ''a'' (no_props\<lparr>href := Str []\<rparr>) [(''color'', Str ''blue'')] [Text ''Google'']]
     [] [] [] = (''%cGoogle'', [''color:blue;''])
   \<and> recursivelyConcatenate1
     [Element ''a'' (no_props\<lparr>href := Str []\<rparr>) [(''color'', Str ''blue'')] [Text ''Google'']]
     [] [] [] \<noteq> (''%cGoogle '', [''color:blue;''])
   \<and> render2 (RHost ''a'' (no_props\<lparr>href := Str ''https://google.com''\<rparr>) [RText ''Google''])
       methods ''log'' [] = (None, [(''log'', [S ''%cGoogle'', S []])])
   \<and> render2 (RHost ''a'' (no_props\<lparr>href := Str ''https://google.com''\<rparr>) [RText ''Google''])
       methods ''log'' [] \<noteq> (None, [(''log'', [S ''%cGoogle https://google.com'', S []])])"
  by code_simp

subsection \<open>C4: errors at the render boundary\<close>

text \<open>
  C4, as the code has it. In the listing of lines 479-495, whatever the engine does under
  \<open>updateContainer\<close>, for every root, every method name and every output target that has
  an \<open>error\<close> method, no exception leaves render: an error that \<open>updateContainer\<close> raises
  is caught and reported by one call of the target's \<open>error\<close> method with that error. In
  the listing of lines 129-140 render has no try/catch: whatever \<open>updateContainer\<close> raises
  leaves render.
\<close>

theorem render_error_boundary:
  "(''error'' \<in> set tgt \<longrightarrow>
      render2_with upd root tgt m log =
        (case upd root \<lparr>ctx = tgt, meth = m, committed = False\<rparr> log of
           (None, c, log') \<Rightarrow> (None, log')
         | (Some e, c, log') \<Rightarrow> (None, log' @ [(''error'', [E e])])))
   \<and> fst (render1_with upd' root' tgt m log) =
        fst (upd' root' \<lparr>ctx = tgt, meth = m, committed = False\<rparr> log)"
proof (intro conjI impI)
  assume "''error'' \<in> set tgt"
  then show "render2_with upd root tgt m log =
        (case upd root \<lparr>ctx = tgt, meth = m, committed = False\<rparr> log of
           (None, c, log') \<Rightarrow> (None, log')
         | (Some e, c, log') \<Rightarrow> (None, log' @ [(''error'', [E e])]))"
    by (simp add: render2_with_def invoke_def split: prod.splits option.splits)
next
  show "fst (render1_with upd' root' tgt m log) =
        fst (upd' root' \<lparr>ctx = tgt, meth = m, committed = False\<rparr> log)"
    by (simp add: render1_with_def split: prod.splits)
qed

theorem render_error_boundary_witness:
  "''error'' \<in> set methods
   \<and> render2 (RHost ''div'' no_props [RText ''x'']) methods ''log'' [] =
     (None, [(''error'', [E (Error ''Invalid element: div is not an inline element.'')])])"
proof -
  have e: "''error'' \<in> set methods"
    by (simp add: methods_def)
  have "render2 (RHost ''div'' no_props [RText ''x'']) methods ''log'' [] =
      (case updateContainer2 (RHost ''div'' no_props [RText ''x''])
              \<lparr>ctx = methods, meth = ''log'', committed = False\<rparr> [] of
         (None, c, log') \<Rightarrow> (None, log')
       | (Some e, c, log') \<Rightarrow> (None, log' @ [(''error'', [E e])]))"
    using render_error_boundary [THEN conjunct1, rule_format, OF e, of updateContainer2]
    unfolding render2_def .
  also have "\<dots> =
      (None, [(''error'', [E (Error ''Invalid element: div is not an inline element.'')])])"
    by code_simp
  finally have "render2 (RHost ''div'' no_props [RText ''x'']) methods ''log'' [] =
      (None, [(''error'', [E (Error ''Invalid element: div is not an inline element.'')])])" .
  with e show ?thesis by blast
qed

theorem render1_propagates_counterexample:
  "render1 (RHost ''b'' no_props [RText ''x'']) methods ''nope'' [] = (Some TypeError, [])"
  by code_simp

subsection \<open>C6: at most one dispatch per session\<close>

lemma commit1_committed:
  "committed c \<Longrightarrow> commit1 c kids log = (None, c, log)"
  by (simp add: commit1_def commit_def prepareForCommit1_def replaceContainerChildren1_def
      resetAfterCommit_def)

lemma commit2_committed:
  "committed c \<Longrightarrow>
     commit2 c kids log = (Some (Error ''Console has already committed this root.''), c, log)"
  by (simp add: commit2_def commit_def prepareForCommit2_def)

lemma commit1_step:
  "commit1 c kids log = (err, c', log') \<Longrightarrow>
     (c' = c \<and> log' = log) \<or> (committed c' \<and> ctx c' = ctx c \<and> meth c' = meth c
        \<and> (\<exists>args. log' = log @ [(meth c, args)]))"
  by (auto simp: commit1_def commit_def prepareForCommit1_def replaceContainerChildren1_def
      resetAfterCommit_def invoke_def split: if_splits prod.splits sum.splits)

lemma commit2_step:
  "commit2 c kids log = (err, c', log') \<Longrightarrow>
     (c' = c \<and> log' = log) \<or> (committed c' \<and> ctx c' = ctx c \<and> meth c' = meth c
        \<and> (\<exists>args. log' = log @ [(meth c, args)]))"
  by (auto simp: commit2_def commit_def prepareForCommit2_def replaceContainerChildren2_def
      resetAfterCommit_def invoke_def split: if_splits prod.splits sum.splits)

lemma signals_committed:
  assumes "\<And>c kids log. committed c \<Longrightarrow> snd (cm c kids log) = (c, log)"
  shows "committed c \<Longrightarrow> signals cm kss c log = (c, log)"
proof (induction kss)
  case Nil
  show ?case by simp
next
  case (Cons kids kss)
  obtain err c' log' where r: "cm c kids log = (err, c', log')"
    by (cases "cm c kids log") auto
  with assms [OF Cons.prems, of kids log] have "c' = c" "log' = log" by simp_all
  with r Cons show ?case by simp
qed

lemma signals_once:
  assumes noop: "\<And>c kids log. committed c \<Longrightarrow> snd (cm c kids log) = (c, log)"
    and step: "\<And>c kids log err c' log'. cm c kids log = (err, c', log') \<Longrightarrow>
      (c' = c \<and> log' = log) \<or> (committed c' \<and> ctx c' = ctx c \<and> meth c' = meth c
        \<and> (\<exists>args. log' = log @ [(meth c, args)]))"
  shows "snd (signals cm kss c log) = log
     \<or> (\<exists>args. snd (signals cm kss c log) = log @ [(meth c, args)])"
proof (induction kss)
  case Nil
  show ?case by simp
next
  case (Cons kids kss)
  obtain err c' log' where r: "cm c kids log = (err, c', log')"
    by (cases "cm c kids log") auto
  from step [OF r] show ?case
  proof
    assume "c' = c \<and> log' = log"
    with r Cons.IH show ?thesis by simp
  next
    assume a: "committed c' \<and> ctx c' = ctx c \<and> meth c' = meth c
        \<and> (\<exists>args. log' = log @ [(meth c, args)])"
    then have "signals cm kss c' log' = (c', log')"
      using signals_committed [of cm c' kss log'] noop by blast
    with r a show ?thesis by auto
  qed
qed

text \<open>
  C6, as the code has it. In both listings a render session dispatches at most once:
  whatever sequence of readiness signals reaches a fresh session, the calls made on the
  output target are the ones made before, followed by at most one call of the session's
  method. A signal that arrives after the committed flag is set dispatches nothing:
  replaceContainerChildren returns at once in both listings. In the listing of lines
  95-117 the whole signal is a silent no-op; in the listing of lines 438-468 it is not
  silent: its prepareForCommit throws the Error
  \<open>Console has already committed this root.\<close>
\<close>

theorem dispatch_at_most_once:
  "(snd (signals commit1 kss \<lparr>ctx = t, meth = m, committed = False\<rparr> log) = log
      \<or> (\<exists>args. snd (signals commit1 kss \<lparr>ctx = t, meth = m, committed = False\<rparr> log) =
            log @ [(m, args)]))
   \<and> (snd (signals commit2 kss' \<lparr>ctx = t, meth = m, committed = False\<rparr> log) = log
      \<or> (\<exists>args. snd (signals commit2 kss' \<lparr>ctx = t, meth = m, committed = False\<rparr> log) =
            log @ [(m, args)]))
   \<and> (committed c \<longrightarrow> commit1 c kids log = (None, c, log))
   \<and> (committed c \<longrightarrow>
        commit2 c kids' log = (Some (Error ''Console has already committed this root.''), c, log))
   \<and> (committed c \<longrightarrow>
        replaceContainerChildren1 c kids log = Inr log
        \<and> replaceContainerChildren2 c kids' log = Inr log
        \<and> prepareForCommit2 c = Inl (Error ''Console has already committed this root.''))"
proof -
  have 3: "committed c \<longrightarrow>
        replaceContainerChildren1 c kids log = Inr log
        \<and> replaceContainerChildren2 c kids' log = Inr log
        \<and> prepareForCommit2 c = Inl (Error ''Console has already committed this root.'')"
    by (simp add: replaceContainerChildren1_def replaceContainerChildren2_def
        prepareForCommit2_def)
  have 1: "snd (signals commit1 kss \<lparr>ctx = t, meth = m, committed = False\<rparr> log) = log
      \<or> (\<exists>args. snd (signals commit1 kss \<lparr>ctx = t, meth = m, committed = False\<rparr> log) =
            log @ [(m, args)])"
    using signals_once [of commit1 kss "\<lparr>ctx = t, meth = m, committed = False\<rparr>" log]
      commit1_committed commit1_step by simp
  have 2: "snd (signals commit2 kss' \<lparr>ctx = t, meth = m, committed = False\<rparr> log) = log
      \<or> (\<exists>args. snd (signals commit2 kss' \<lparr>ctx = t, meth = m, committed = False\<rparr> log) =
            log @ [(m, args)])"
    using signals_once [of commit2 kss' "\<lparr>ctx = t, meth = m, committed = False\<rparr>" log]
      commit2_committed commit2_step by simp
  from 1 2 3 show ?thesis
    using commit1_committed commit2_committed by blast
qed

theorem dispatch_at_most_once_witness:
  "snd (signals commit1 [[Text ''x''], [Text ''y'']]
          \<lparr>ctx = methods, meth = ''log'', committed = False\<rparr> []) = [(''log'', [S ''%cx'', S []])]
   \<and> snd (signals commit2 [[Text ''x''], [Text ''y'']]
          \<lparr>ctx = methods, meth = ''log'', committed = False\<rparr> []) = [(''log'', [S ''%cx'', S []])]
   \<and> commit1 \<lparr>ctx = methods, meth = ''log'', committed = True\<rparr> [Text ''y'']
        [(''log'', [S ''%cx'', S []])] =
      (None, \<lparr>ctx = methods, meth = ''log'', committed = True\<rparr>, [(''log'', [S ''%cx'', S []])])
   \<and> commit2 \<lparr>ctx = methods, meth = ''log'', committed = True\<rparr> [Text ''y'']
        [(''log'', [S ''%cx'', S []])] =
      (Some (Error ''Console has already committed this root.''),
       \<lparr>ctx = methods, meth = ''log'', committed = True\<rparr>, [(''log'', [S ''%cx'', S []])])"
proof -
  let ?c = "\<lparr>ctx = methods, meth = ''log'', committed = True\<rparr>"
  have c: "committed ?c"
    by simp
  have 1: "snd (signals commit1 [[Text ''x''], [Text ''y'']]
          \<lparr>ctx = methods, meth = ''log'', committed = False\<rparr> []) = [(''log'', [S ''%cx'', S []])]"
    by code_simp
  have 2: "snd (signals commit2 [[Text ''x''], [Text ''y'']]
          \<lparr>ctx = methods, meth = ''log'', committed = False\<rparr> []) = [(''log'', [S ''%cx'', S []])]"
    by code_simp
  note d = dispatch_at_most_once [THEN conjunct2, THEN conjunct2]
  have 3: "commit1 ?c [Text ''y''] [(''log'', [S ''%cx'', S []])] =
      (None, ?c, [(''log'', [S ''%cx'', S []])])"
    using d [THEN conjunct1, rule_format, OF c] .
  have 4: "commit2 ?c [Text ''y''] [(''log'', [S ''%cx'', S []])] =
      (Some (Error ''Console has already committed this root.''), ?c,
       [(''log'', [S ''%cx'', S []])])"
    using d [THEN conjunct2, THEN conjunct1, rule_format, OF c] .
  from 1 2 3 4 show ?thesis by blast
qed

theorem second_signal_throws_counterexample:
  "commit2 \<lparr>ctx = methods, meth = ''log'', committed = False\<rparr> [Text ''x''] [] =
     (None, \<lparr>ctx = methods, meth = ''log'', committed = True\<rparr>, [(''log'', [S ''%cx'', S []])])
   \<and> commit2 \<lparr>ctx = methods, meth = ''log'', committed = True\<rparr> [Text ''x'']
       [(''log'', [S ''%cx'', S []])] =
     (Some (Error ''Console has already committed this root.''),
      \<lparr>ctx = methods, meth = ''log'', committed = True\<rparr>, [(''log'', [S ''%cx'', S []])])"
  by code_simp

subsection \<open>C7: the interception wrapper\<close>

lemma overrides1_redirect:
  "overrides1 name [AElement e] = CallRender (AElement e) name"
  "(\<And>e. args \<noteq> [AElement e]) \<Longrightarrow> overrides1 name args = CallOriginal name args"
proof -
  show "overrides1 name [AElement e] = CallRender (AElement e) name"
    by (simp add: overrides1_def)
  assume n: "\<And>e. args \<noteq> [AElement e]"
  show "overrides1 name args = CallOriginal name args"
  proof (cases args)
    case Nil
    then show ?thesis by (simp add: overrides1_def)
  next
    case (Cons a as)
    with n show ?thesis
      by (cases a; cases as) (auto simp: overrides1_def)
  qed
qed

text \<open>
  C7. The wrapper of lines 41-51 does what the claim says (\<open>overrides1_redirect\<close>). The
  wrapper of lines 334-344 does not: called with one argument that is not an element it
  calls render with it instead of the original method, and called with no argument it
  throws a TypeError instead of calling the original method.
\<close>

theorem overrides2_not_guarded:
  "overrides2 ''log'' [AOther False] = Inr (CallRender (AOther False) ''log'')
   \<and> overrides2 ''log'' [] = Inl TypeError
   \<and> overrides1 ''log'' [AOther False] = CallOriginal ''log'' [AOther False]
   \<and> overrides1 ''log'' [] = CallOriginal ''log'' []"
  by (simp add: overrides2_def overrides1_def)

subsection \<open>C9: the style serializer\<close>

lemma toCSSString_loop_concat:
  "toCSSString_loop conv st acc =
     acc @ concat (map (\<lambda>(prop, v). conv prop @ '':'' @ toString v @ '';'') st)"
  by (induction st arbitrary: acc) auto

lemma lower_char_other: "\<not> is_upper c \<Longrightarrow> lower_char c = c"
  by (simp add: is_upper_def lower_char_def upper_letters_def lower_letters_def)

lemma lower_not_upper: "is_lower c \<Longrightarrow> \<not> is_upper c"
  by (auto simp: is_upper_def is_lower_def upper_letters_def lower_letters_def)

lemma lower_char_hyphen: "lower_char CHR ''-'' = CHR ''-''"
  by (simp add: lower_char_def upper_letters_def lower_letters_def)

lemma cssProp1_chars:
  "cssProp1 prop =
     concat (map (\<lambda>c. if is_upper c then [CHR ''-'', lower_char c] else [c]) prop)"
  by (induction "prop")
    (simp_all add: cssProp1_def toLowerCase_def lower_char_other lower_char_hyphen)

lemma length_replace1: "length (replace1 s) = length s + length (filter is_upper s)"
  by (induction s) simp_all

lemma length_hyphenate_boundaries:
  "length (hyphenate_boundaries s) = length s + boundaries s"
  by (induction s rule: hyphenate_boundaries.induct) simp_all

lemma hyphenate_eq_replace1:
  "uppers_after (is_lower a) cs \<Longrightarrow> hyphenate_boundaries (a # cs) = a # replace1 cs"
proof (induction cs arbitrary: a)
  case Nil
  show ?case by simp
next
  case (Cons b cs)
  then show ?case by auto
qed

lemma boundaries_le_uppers:
  "boundaries (a # cs) \<le> length (filter is_upper cs)"
  by (induction cs arbitrary: a) (simp_all add: le_SucI)

lemma boundaries_less_uppers:
  "\<not> uppers_after (is_lower a) cs \<Longrightarrow> boundaries (a # cs) < length (filter is_upper cs)"
proof (induction cs arbitrary: a)
  case Nil
  then show ?case by simp
next
  case (Cons b cs)
  show ?case
  proof (cases "is_upper b \<and> \<not> is_lower a")
    case True
    then show ?thesis
      using boundaries_le_uppers [of b cs] by simp
  next
    case False
    with Cons.prems have "\<not> uppers_after (is_lower b) cs" by auto
    from Cons.IH [OF this] show ?thesis by simp
  qed
qed

lemma cssProp1_spec_iff:
  "cssProp1 prop = spec_cssProp prop \<longleftrightarrow> uppers_follow_lowers prop"
proof
  assume eq: "cssProp1 prop = spec_cssProp prop"
  then have "length (replace1 prop) = length (hyphenate_boundaries prop)"
    unfolding cssProp1_def spec_cssProp_def toLowerCase_def
    by (metis length_map)
  then have l: "length (filter is_upper prop) = boundaries prop"
    by (simp add: length_replace1 length_hyphenate_boundaries)
  show "uppers_follow_lowers prop"
  proof (cases "prop")
    case Nil
    then show ?thesis by (simp add: uppers_follow_lowers_def)
  next
    case (Cons a cs)
    show ?thesis
    proof (rule ccontr)
      assume "\<not> uppers_follow_lowers prop"
      then have "is_upper a \<or> \<not> uppers_after (is_lower a) cs"
        by (simp add: uppers_follow_lowers_def Cons)
      then have "boundaries (a # cs) < length (filter is_upper (a # cs))"
        using boundaries_le_uppers [of a cs] boundaries_less_uppers [of a cs]
        by (auto simp: less_Suc_eq_le intro: less_SucI)
      with l Cons show False by simp
    qed
  qed
next
  assume u: "uppers_follow_lowers prop"
  show "cssProp1 prop = spec_cssProp prop"
  proof (cases "prop")
    case Nil
    then show ?thesis by (simp add: cssProp1_def spec_cssProp_def)
  next
    case (Cons a cs)
    with u have "\<not> is_upper a" "uppers_after (is_lower a) cs"
      by (simp_all add: uppers_follow_lowers_def)
    then show ?thesis
      by (simp add: cssProp1_def spec_cssProp_def Cons hyphenate_eq_replace1)
  qed
qed

lemma hyphenate_no_boundary: "boundaries s = 0 \<Longrightarrow> hyphenate_boundaries s = s"
  by (induction s rule: hyphenate_boundaries.induct) (auto split: if_splits)

lemma replace2_one_boundary: "boundaries s \<le> 1 \<Longrightarrow> replace2 s = hyphenate_boundaries s"
  by (induction s rule: replace2.induct) (auto simp: hyphenate_no_boundary split: if_splits)

lemma toCSSString_structure:
  "toCSSString1 st = concat (map (\<lambda>(prop, v). cssProp1 prop @ '':'' @ toString v @ '';'') st)"
  "toCSSString2 st = concat (map (\<lambda>(prop, v). cssProp2 prop @ '':'' @ toString v @ '';'') st)"
  by (simp_all add: toCSSString1_def toCSSString2_def toCSSString_loop_concat)

lemma cssProp1_camel_case:
  "uppers_follow_lowers prop \<Longrightarrow> cssProp1 prop = spec_cssProp prop"
  by (simp add: cssProp1_spec_iff)

lemma cssProp2_one_boundary:
  "boundaries prop \<le> 1 \<Longrightarrow> cssProp2 prop = spec_cssProp prop"
  by (simp add: cssProp2_def spec_cssProp_def replace2_one_boundary)

text \<open>
  C9. The serializer of lines 617-627 does not do what the claim says on a property name
  with more than one lower-to-upper boundary: the expression of line 609 has no \<open>g\<close>
  flag, so only the first boundary gets its hyphen, and the mapping with the one property
  \<open>borderTopWidth\<close> (two boundaries) is serialized as \<open>border-topwidth:1px;\<close> where the claim
  gives \<open>border-top-width:1px;\<close>. The serializer of lines 283-293 gives
  \<open>border-top-width:1px;\<close>; it concatenates the segments in iteration order
  (\<open>toCSSString_structure\<close>) and converts every camel-case name as the claim says
  (\<open>cssProp1_camel_case\<close>).
\<close>

theorem toCSSString2_first_boundary_only:
  "toCSSString2 [(''borderTopWidth'', Str ''1px'')] = ''border-topwidth:1px;''
   \<and> boundaries ''borderTopWidth'' = 2
   \<and> spec_cssProp ''borderTopWidth'' = ''border-top-width''
   \<and> cssProp2 ''borderTopWidth'' \<noteq> spec_cssProp ''borderTopWidth''
   \<and> toCSSString1 [(''borderTopWidth'', Str ''1px'')] = ''border-top-width:1px;''"
  by code_simp

subsection \<open>C8: style inheritance\<close>

lemma map_of_set_prop: "map_of (set_prop obj k v) = (map_of obj)(k \<mapsto> v)"
  by (induction obj) auto

lemma keys_set_prop: "fst ` set (set_prop obj k v) = insert k (fst ` set obj)"
proof (induction obj)
  case Nil
  show ?case by simp
next
  case (Cons a obj)
  obtain k' v' where a: "a = (k', v')"
    by (cases a)
  show ?case
  proof (cases "k' = k")
    case True
    then show ?thesis by (simp add: a)
  next
    case False
    then show ?thesis
      using Cons.IH by (simp add: a insert_commute)
  qed
qed

lemma distinct_set_prop:
  "distinct (map fst obj) \<Longrightarrow> distinct (map fst (set_prop obj k v))"
proof (induction obj)
  case Nil
  show ?case by simp
next
  case (Cons a obj)
  obtain k' v' where a: "a = (k', v')"
    by (cases a)
  from Cons.prems have n: "k' \<notin> fst ` set obj" and d: "distinct (map fst obj)"
    by (simp_all add: a)
  show ?case
  proof (cases "k' = k")
    case True
    with n d show ?thesis by (simp add: a)
  next
    case False
    with n have "k' \<notin> fst ` set (set_prop obj k v)"
      by (simp only: keys_set_prop) simp
    with Cons.IH [OF d] False show ?thesis
      by (simp add: a)
  qed
qed

lemma distinct_assign:
  "distinct (map fst target) \<Longrightarrow> distinct (map fst (assign target source))"
  by (induction target source rule: assign.induct) (simp_all add: distinct_set_prop)

lemma map_add_upd_left:
  "n k = None \<Longrightarrow> m(k \<mapsto> v) ++ n = m ++ n(k \<mapsto> v)"
  by (rule ext) (simp add: map_add_def split: option.splits)

lemma map_of_assign:
  "distinct (map fst source) \<Longrightarrow> map_of (assign target source) = map_of target ++ map_of source"
proof (induction target source rule: assign.induct)
  case (1 target)
  show ?case by simp
next
  case (2 target k v source)
  from "2.prems" have k: "map_of source k = None" and d: "distinct (map fst source)"
    by (simp_all add: map_of_eq_None_iff)
  have "map_of (assign (set_prop target k v) source) =
      map_of (set_prop target k v) ++ map_of source"
    using "2.IH" d by simp
  also have "\<dots> = (map_of target)(k \<mapsto> v) ++ map_of source"
    by (simp only: map_of_set_prop)
  also have "\<dots> = map_of target ++ (map_of source)(k \<mapsto> v)"
    using k by (rule map_add_upd_left)
  finally have "map_of (assign (set_prop target k v) source) =
      map_of target ++ (map_of source)(k \<mapsto> v)" .
  then show ?case
    by (simp only: assign.simps map_of.simps fst_conv snd_conv)
qed

lemma nested_merge:
  assumes "distinct (map fst s1)" and "distinct (map fst s2)"
  shows "map_of (assign (assign [] (assign (assign [] []) s1)) s2) = map_of s1 ++ map_of s2"
    and "distinct (map fst (assign (assign [] (assign (assign [] []) s1)) s2))"
proof -
  have d: "distinct (map fst (assign [] s1))"
    by (simp add: distinct_assign)
  have "map_of (assign (assign [] (assign [] s1)) s2) =
      (map_of [] ++ map_of (assign [] s1)) ++ map_of s2"
    using assms(2) d by (simp only: map_of_assign)
  also have "\<dots> = (map_of [] ++ (map_of [] ++ map_of s1)) ++ map_of s2"
    using assms(1) by (simp only: map_of_assign)
  finally show "map_of (assign (assign [] (assign (assign [] []) s1)) s2) =
      map_of s1 ++ map_of s2"
    by simp
  show "distinct (map fst (assign (assign [] (assign (assign [] []) s1)) s2))"
    by (simp add: distinct_assign)
qed

lemma nested_leaf1:
  assumes "t1 \<notin> {''br'', ''img''}" "t2 \<notin> {''br'', ''img''}"
  shows "snd (recursivelyConcatenate1
          (pre0 @ Element t1 p1 s1 (pre1 @ Element t2 p2 s2 (pre2 @ Text x # post2) # post1) # post0)
          [] [] []) =
      snd (recursivelyConcatenate1 pre0 [] [] [])
      @ snd (recursivelyConcatenate1 pre1 [] (assign (assign [] []) s1) [])
      @ snd (recursivelyConcatenate1 pre2 [] (assign (assign [] (assign (assign [] []) s1)) s2) [])
      @ [toCSSString1 (assign (assign [] (assign (assign [] []) s1)) s2)]
      @ snd (recursivelyConcatenate1 post2 [] (assign (assign [] (assign (assign [] []) s1)) s2) [])
      @ snd (recursivelyConcatenate1 post1 [] (assign (assign [] []) s1) [])
      @ snd (recursivelyConcatenate1 post0 [] [] [])"
  using assms by (simp add: rc1_trace trace1_append entries_append)

lemma nested_leaf2:
  assumes "t1 \<noteq> ''br''" "t2 \<noteq> ''br''"
  shows "snd (recursivelyConcatenate2
          (pre0 @ Element t1 p1 s1 (pre1 @ Element t2 p2 s2 (pre2 @ Text x # post2) # post1) # post0)
          [] [] []) =
      snd (recursivelyConcatenate2 pre0 [] [] [])
      @ snd (recursivelyConcatenate2 pre1 [] (assign (assign [] []) s1) [])
      @ snd (recursivelyConcatenate2 pre2 [] (assign (assign [] (assign (assign [] []) s1)) s2) [])
      @ [toCSSString2 (assign (assign [] (assign (assign [] []) s1)) s2)]
      @ snd (recursivelyConcatenate2 post2 [] (assign (assign [] (assign (assign [] []) s1)) s2) [])
      @ snd (recursivelyConcatenate2 post1 [] (assign (assign [] []) s1) [])
      @ snd (recursivelyConcatenate2 post0 [] [] [])"
  using assms by (simp add: rc2_trace trace2_append entries_append)

text \<open>
  C8. Take a text leaf \<open>x\<close> under two ancestor elements at the top of a committed tree,
  with any siblings before and after the leaf and before and after each ancestor
  (neither ancestor being one whose children are not entered: \<open>br\<close>, and \<open>img\<close> in the
  first listing). The entries pushed are those of what precedes the leaf, then the
  leaf's entry, then those of what follows; the leaf's entry is the serialization of the
  style object \<open>m\<close> that merges the outer ancestor's style \<open>s1\<close> and the inner ancestor's
  style \<open>s2\<close>. As a mapping, \<open>m\<close> is \<open>map_of s1 ++ map_of s2\<close>: the union of the two when
  their property names are disjoint, and the inner (nearer) ancestor's value on a name
  both have. Rendering strong > em[style color=#21a0a0] > "Chris" gives the format string
  \<open>%cChris\<close> and one style entry, which contains \<open>font-weight:bolder;\<close> and
  \<open>color:#21a0a0;\<close>.
\<close>

theorem nested_style_union:
  "(distinct (map fst s1) \<and> distinct (map fst s2) \<longrightarrow>
      map_of (assign (assign [] (assign (assign [] []) s1)) s2) = map_of s1 ++ map_of s2
      \<and> distinct (map fst (assign (assign [] (assign (assign [] []) s1)) s2)))
   \<and> (t1 \<notin> {''br'', ''img''} \<and> t2 \<notin> {''br'', ''img''} \<longrightarrow>
      snd (recursivelyConcatenate1
          (pre0 @ Element t1 p1 s1 (pre1 @ Element t2 p2 s2 (pre2 @ Text x # post2) # post1) # post0)
          [] [] []) =
      snd (recursivelyConcatenate1 pre0 [] [] [])
      @ snd (recursivelyConcatenate1 pre1 [] (assign (assign [] []) s1) [])
      @ snd (recursivelyConcatenate1 pre2 [] (assign (assign [] (assign (assign [] []) s1)) s2) [])
      @ [toCSSString1 (assign (assign [] (assign (assign [] []) s1)) s2)]
      @ snd (recursivelyConcatenate1 post2 [] (assign (assign [] (assign (assign [] []) s1)) s2) [])
      @ snd (recursivelyConcatenate1 post1 [] (assign (assign [] []) s1) [])
      @ snd (recursivelyConcatenate1 post0 [] [] []))
   \<and> (t1 \<noteq> ''br'' \<and> t2 \<noteq> ''br'' \<longrightarrow>
      snd (recursivelyConcatenate2
          (pre0' @ Element t1 u1 s1 (pre1' @ Element t2 u2 s2 (pre2' @ Text x # post2') # post1') # post0')
          [] [] []) =
      snd (recursivelyConcatenate2 pre0' [] [] [])
      @ snd (recursivelyConcatenate2 pre1' [] (assign (assign [] []) s1) [])
      @ snd (recursivelyConcatenate2 pre2' [] (assign (assign [] (assign (assign [] []) s1)) s2) [])
      @ [toCSSString2 (assign (assign [] (assign (assign [] []) s1)) s2)]
      @ snd (recursivelyConcatenate2 post2' [] (assign (assign [] (assign (assign [] []) s1)) s2) [])
      @ snd (recursivelyConcatenate2 post1' [] (assign (assign [] []) s1) [])
      @ snd (recursivelyConcatenate2 post0' [] [] []))
   \<and> render1 (RHost ''strong'' no_props
         [RHost ''em'' (no_props\<lparr>style := Some [(''color'', Str ''#21a0a0'')]\<rparr>) [RText ''Chris'']])
       methods ''log'' [] =
      (None, [(''log'', [S ''%cChris'',
         S ''font-weight:bolder;font-style:italic;color:#21a0a0;''])])
   \<and> render2 (RHost ''strong'' no_props
         [RHost ''em'' (no_props\<lparr>style := Some [(''color'', Str ''#21a0a0'')]\<rparr>) [RText ''Chris'']])
       methods ''log'' [] =
      (None, [(''log'', [S ''%cChris'',
         S ''font-weight:bolder;font-style:italics;color:#21a0a0;''])])"
proof -
  have e1: "render1 (RHost ''strong'' no_props
         [RHost ''em'' (no_props\<lparr>style := Some [(''color'', Str ''#21a0a0'')]\<rparr>) [RText ''Chris'']])
       methods ''log'' [] =
      (None, [(''log'', [S ''%cChris'',
         S ''font-weight:bolder;font-style:italic;color:#21a0a0;''])])"
    by code_simp
  have e2: "render2 (RHost ''strong'' no_props
         [RHost ''em'' (no_props\<lparr>style := Some [(''color'', Str ''#21a0a0'')]\<rparr>) [RText ''Chris'']])
       methods ''log'' [] =
      (None, [(''log'', [S ''%cChris'',
         S ''font-weight:bolder;font-style:italics;color:#21a0a0;''])])"
    by code_simp
  show ?thesis
    using nested_merge [of s1 s2]
      nested_leaf1 [of t1 t2 pre0 p1 s1 pre1 p2 s2 pre2 x post2 post1 post0]
      nested_leaf2 [of t1 t2 pre0' u1 s1 pre1' u2 s2 pre2' x post2' post1' post0'] e1 e2
    by blast
qed

theorem nested_style_union_witness:
  "distinct (map fst [(''backgroundColor'', Str ''yellow''), (''color'', Str ''black'')])
   \<and> distinct (map fst [(''fontStyle'', Str ''italic''), (''color'', Str ''#21a0a0'')])
   \<and> map_of (assign (assign [] (assign (assign [] [])
          [(''backgroundColor'', Str ''yellow''), (''color'', Str ''black'')]))
          [(''fontStyle'', Str ''italic''), (''color'', Str ''#21a0a0'')]) =
       map_of [(''backgroundColor'', Str ''yellow''), (''color'', Str ''black'')]
         ++ map_of [(''fontStyle'', Str ''italic''), (''color'', Str ''#21a0a0'')]
   \<and> snd (recursivelyConcatenate1
         [Text ''Hello, '',
          Element ''mark'' no_props [(''backgroundColor'', Str ''yellow''), (''color'', Str ''black'')]
            [Element ''em'' no_props [(''fontStyle'', Str ''italic''), (''color'', Str ''#21a0a0'')]
               [Text ''Chris'']],
          Text ''!''] [] [] []) =
       [[], ''background-color:yellow;color:#21a0a0;font-style:italic;'', []]
   \<and> snd (recursivelyConcatenate2
         [Text ''Hello, '',
          Element ''mark'' () [(''backgroundColor'', Str ''yellow''), (''color'', Str ''black'')]
            [Element ''em'' () [(''fontStyle'', Str ''italic''), (''color'', Str ''#21a0a0'')]
               [Text ''Chris'']],
          Text ''!''] [] [] []) =
       [[], ''background-color:yellow;color:#21a0a0;font-style:italic;'', []]"
proof -
  let ?s1 = "[(''backgroundColor'', Str ''yellow''), (''color'', Str ''black'')]"
  let ?s2 = "[(''fontStyle'', Str ''italic''), (''color'', Str ''#21a0a0'')]"
  let ?n = "assign (assign [] []) ?s1"
  let ?m = "assign (assign [] ?n) ?s2"
  have d: "distinct (map fst ?s1) \<and> distinct (map fst ?s2)"
    by simp
  have t: "''mark'' \<notin> {''br'', ''img''} \<and> ''em'' \<notin> {''br'', ''img''}"
    and t': "''mark'' \<noteq> ''br'' \<and> ''em'' \<noteq> ''br''"
    by simp_all
  note n = nested_style_union [of ?s1 ?s2 "''mark''" "''em''" "[Text ''Hello, '']" no_props "[]"
      no_props "[]" "''Chris''" "[]" "[]" "[Text ''!'']" "[Text ''Hello, '']" "()" "[]" "()" "[]"
      "[]" "[]" "[Text ''!'']"]
  have 1: "map_of ?m = map_of ?s1 ++ map_of ?s2"
    using n [THEN conjunct1] d by blast
  have "snd (recursivelyConcatenate1
      ([Text ''Hello, ''] @ Element ''mark'' no_props ?s1
         ([] @ Element ''em'' no_props ?s2 ([] @ Text ''Chris'' # []) # []) # [Text ''!''])
      [] [] []) =
      snd (recursivelyConcatenate1 [Text ''Hello, ''] [] [] [])
      @ snd (recursivelyConcatenate1 [] [] ?n [])
      @ snd (recursivelyConcatenate1 [] [] ?m [])
      @ [toCSSString1 ?m]
      @ snd (recursivelyConcatenate1 [] [] ?m [])
      @ snd (recursivelyConcatenate1 [] [] ?n [])
      @ snd (recursivelyConcatenate1 [Text ''!''] [] [] [])"
    using n [THEN conjunct2, THEN conjunct1] t by blast
  also have "\<dots> = [[], ''background-color:yellow;color:#21a0a0;font-style:italic;'', []]"
    by code_simp
  finally have 2: "snd (recursivelyConcatenate1
      [Text ''Hello, '', Element ''mark'' no_props ?s1 [Element ''em'' no_props ?s2 [Text ''Chris'']],
       Text ''!''] [] [] []) =
      [[], ''background-color:yellow;color:#21a0a0;font-style:italic;'', []]"
    unfolding append.simps .
  have "snd (recursivelyConcatenate2
      ([Text ''Hello, ''] @ Element ''mark'' () ?s1
         ([] @ Element ''em'' () ?s2 ([] @ Text ''Chris'' # []) # []) # [Text ''!''])
      [] [] []) =
      snd (recursivelyConcatenate2 [Text ''Hello, ''] [] [] [])
      @ snd (recursivelyConcatenate2 [] [] ?n [])
      @ snd (recursivelyConcatenate2 [] [] ?m [])
      @ [toCSSString2 ?m]
      @ snd (recursivelyConcatenate2 [] [] ?m [])
      @ snd (recursivelyConcatenate2 [] [] ?n [])
      @ snd (recursivelyConcatenate2 [Text ''!''] [] [] [])"
    using n [THEN conjunct2, THEN conjunct2, THEN conjunct1] t' by blast
  also have "\<dots> = [[], ''background-color:yellow;color:#21a0a0;font-style:italic;'', []]"
    by code_simp
  finally have 3: "snd (recursivelyConcatenate2
      [Text ''Hello, '', Element ''mark'' () ?s1 [Element ''em'' () ?s2 [Text ''Chris'']],
       Text ''!''] [] [] []) =
      [[], ''background-color:yellow;color:#21a0a0;font-style:italic;'', []]"
    unfolding append.simps .
  from d 1 2 3 show ?thesis by blast
qed

subsection \<open>C1: markers and style entries\<close>

lemma split_markers_nonempty: "split_markers s \<noteq> []"
  by (induction s rule: split_markers.induct) (simp_all split: list.splits)

lemma length_split_markers: "length (split_markers s) = Suc (count_markers s)"
proof (induction s rule: split_markers.induct)
  case (1 a b cs)
  then show ?case
    by (cases "split_markers (b # cs)") (simp_all add: split_markers_nonempty)
qed simp_all

lemma glue_case: "ps \<noteq> [] \<Longrightarrow> (case ps of [] \<Rightarrow> [[a]] | p # ps' \<Rightarrow> (a # p) # ps') = glue [a] ps"
  by (cases ps) simp_all

lemma glue_glue: "ps \<noteq> [] \<Longrightarrow> glue s (glue t ps) = glue (s @ t) ps"
  by (cases ps) simp_all

lemma split_markers_append:
  "no_c ys \<Longrightarrow> count_markers t = 0 \<Longrightarrow> split_markers (t @ ys) = glue t (split_markers ys)"
proof (induction t rule: count_markers.induct)
  case (1 a b cs)
  then have m: "\<not> (a = CHR ''%'' \<and> b = CHR ''c'')" and c: "count_markers (b # cs) = 0"
    by (simp_all split: if_splits)
  have "split_markers ((a # b # cs) @ ys) = glue [a] (split_markers ((b # cs) @ ys))"
    using m by (auto simp: glue_case split_markers_nonempty)
  also have "\<dots> = glue [a] (glue (b # cs) (split_markers ys))"
    using 1 m c by simp
  also have "\<dots> = glue (a # b # cs) (split_markers ys)"
    by (simp add: glue_glue split_markers_nonempty)
  finally show ?case .
qed ((cases ys; cases "split_markers ys"; simp add: no_c_def split_markers_nonempty split: list.splits)+)

lemma count_markers_append:
  "no_c ys \<Longrightarrow> count_markers (t @ ys) = count_markers t + count_markers ys"
proof (induction t rule: count_markers.induct)
  case (1 a b cs)
  then show ?case by simp
qed (cases ys; simp add: no_c_def)+

lemma no_c_emit: "lit_ok tr \<Longrightarrow> no_c (concat (map emit tr))"
proof (induction tr rule: lit_ok.induct)
  case 1
  show ?case by (simp add: no_c_def)
next
  case (2 css t tr)
  show ?case by (simp add: no_c_def)
next
  case (3 s tr)
  then show ?case by (cases s) (simp_all add: no_c_def)
qed

lemma count_markers_emit:
  "lit_ok tr \<Longrightarrow> count_markers (concat (map emit tr)) = length (entries tr) + stray tr"
proof (induction tr rule: lit_ok.induct)
  case 1
  show ?case by simp
next
  case (2 css t tr)
  then show ?case
    by (simp add: count_markers_append no_c_emit)
next
  case (3 s tr)
  then show ?case
    by (simp add: count_markers_append no_c_emit)
qed

lemma split_markers_emit:
  "lit_ok tr \<Longrightarrow> stray tr = 0 \<Longrightarrow> split_markers (concat (map emit tr)) = pieces tr"
proof (induction tr rule: lit_ok.induct)
  case 1
  show ?case by simp
next
  case (2 css t tr)
  then show ?case
    by (simp add: split_markers_append no_c_emit)
next
  case (3 s tr)
  then show ?case
    by (simp add: split_markers_append no_c_emit)
qed

lemma pieces_nonempty: "pieces tr \<noteq> []"
  by (induction tr rule: pieces.induct) (simp_all, (case_tac "pieces tr"; simp))

lemma entries_runs: "entries tr = map fst (runs tr)"
  by (induction tr rule: runs.induct) simp_all

lemma glue_nth_Suc: "ps \<noteq> [] \<Longrightarrow> glue t ps ! Suc i = ps ! Suc i"
  by (cases ps) simp_all

lemma glue_nth_0: "prefix t (glue t ps ! 0)"
  by (cases ps) simp_all

lemma pieces_prefix:
  "i < length (runs tr) \<Longrightarrow> prefix (snd (runs tr ! i)) (pieces tr ! Suc i)"
proof (induction tr arbitrary: i rule: runs.induct)
  case 1
  then show ?case by simp
next
  case (2 css t tr)
  show ?case
  proof (cases i)
    case 0
    then show ?thesis by (simp add: glue_nth_0)
  next
    case (Suc j)
    with "2.prems" have j: "j < length (runs tr)" by simp
    from "2.IH" [OF j] show ?thesis
      by (simp add: Suc glue_nth_Suc pieces_nonempty)
  qed
next
  case (3 s tr)
  from "3.IH" [OF "3.prems" [simplified]] show ?case
    by (simp add: glue_nth_Suc pieces_nonempty)
qed

lemma lit_ok_append: "lit_ok (xs @ ys) = (lit_ok xs \<and> lit_ok ys)"
  by (induction xs rule: lit_ok.induct) simp_all

lemma lit_ok_trace1: "lit_ok (trace1 xs st)"
  by (induction xs st rule: trace1.induct) (simp_all add: lit_ok_append no_c_def)

lemma lit_ok_trace2: "lit_ok (trace2 xs st)"
  by (induction xs st rule: trace2.induct) (simp_all add: lit_ok_append no_c_def)

lemma markers_of_trace:
  assumes "lit_ok tr"
  shows "count_markers (concat (map emit tr)) = length (entries tr) + stray tr
    \<and> entries tr = map fst (runs tr)
    \<and> (stray tr = 0 \<longrightarrow>
        length (split_markers (concat (map emit tr))) = Suc (length (entries tr))
        \<and> (\<forall>i<length (entries tr).
              prefix (snd (runs tr ! i)) (split_markers (concat (map emit tr)) ! Suc i)))"
proof (intro conjI impI allI)
  show "count_markers (concat (map emit tr)) = length (entries tr) + stray tr"
    using assms by (rule count_markers_emit)
  show "entries tr = map fst (runs tr)"
    by (rule entries_runs)
next
  assume "stray tr = 0"
  then show "length (split_markers (concat (map emit tr))) = Suc (length (entries tr))"
    using assms by (simp add: length_split_markers count_markers_emit)
next
  fix i
  assume s: "stray tr = 0" and i: "i < length (entries tr)"
  then have "i < length (runs tr)"
    by (simp add: entries_runs)
  then show "prefix (snd (runs tr ! i)) (split_markers (concat (map emit tr)) ! Suc i)"
    using assms s by (simp add: split_markers_emit pieces_prefix)
qed

text \<open>
  C1, as the code has it. In both listings the format string of a flattening has as many
  markers \<open>%c\<close> as style entries were pushed, plus the markers that stand inside the texts
  the flattening copies (the text leaves and the appended anchor targets), which are
  copied unescaped. So when none of these texts contains \<open>%c\<close>, the markers and the entries
  are equally many; then the i-th entry is the serialized style of the i-th text leaf
  flattened, and the text that follows the i-th marker begins with that leaf's text.
\<close>

theorem markers_match_entries:
  "count_markers (fst (recursivelyConcatenate1 xs [] st [])) =
     length (snd (recursivelyConcatenate1 xs [] st [])) + stray (trace1 xs st)
   \<and> snd (recursivelyConcatenate1 xs [] st []) = map fst (runs (trace1 xs st))
   \<and> (stray (trace1 xs st) = 0 \<longrightarrow>
        length (split_markers (fst (recursivelyConcatenate1 xs [] st []))) =
          Suc (length (snd (recursivelyConcatenate1 xs [] st [])))
        \<and> (\<forall>i<length (snd (recursivelyConcatenate1 xs [] st [])).
              prefix (snd (runs (trace1 xs st) ! i))
                (split_markers (fst (recursivelyConcatenate1 xs [] st [])) ! Suc i)))
   \<and> count_markers (fst (recursivelyConcatenate2 ys [] st [])) =
     length (snd (recursivelyConcatenate2 ys [] st [])) + stray (trace2 ys st)
   \<and> snd (recursivelyConcatenate2 ys [] st []) = map fst (runs (trace2 ys st))
   \<and> (stray (trace2 ys st) = 0 \<longrightarrow>
        length (split_markers (fst (recursivelyConcatenate2 ys [] st []))) =
          Suc (length (snd (recursivelyConcatenate2 ys [] st [])))
        \<and> (\<forall>i<length (snd (recursivelyConcatenate2 ys [] st [])).
              prefix (snd (runs (trace2 ys st) ! i))
                (split_markers (fst (recursivelyConcatenate2 ys [] st [])) ! Suc i)))"
proof -
  have 1: "recursivelyConcatenate1 xs [] st [] =
      (concat (map emit (trace1 xs st)), entries (trace1 xs st))"
    by (simp add: rc1_trace)
  have 2: "recursivelyConcatenate2 ys [] st [] =
      (concat (map emit (trace2 ys st)), entries (trace2 ys st))"
    by (simp add: rc2_trace)
  show ?thesis
    unfolding 1 2 fst_conv snd_conv
    using markers_of_trace [OF lit_ok_trace1 [of xs st]] markers_of_trace [OF lit_ok_trace2 [of ys st]]
    by blast
qed

theorem markers_match_entries_witness:
  "stray (trace1 [Text ''Hello, '',
       Element ''a'' (no_props\<lparr>href := Str ''https://x.org''\<rparr>) [(''color'', Str ''blue'')]
         [Text ''Chris'']] []) = 0
   \<and> recursivelyConcatenate1 [Text ''Hello, '',
       Element ''a'' (no_props\<lparr>href := Str ''https://x.org''\<rparr>) [(''color'', Str ''blue'')]
         [Text ''Chris'']] [] [] [] =
      (''%cHello, %cChris https://x.org'', [[], ''color:blue;''])
   \<and> count_markers ''%cHello, %cChris https://x.org'' = 2
   \<and> prefix ''Chris'' (split_markers ''%cHello, %cChris https://x.org'' ! Suc 1)
   \<and> stray (trace2 [Text ''Hello, '', Element ''br'' () [] [],
       Element ''b'' () [(''fontWeight'', Str ''bolder'')] [Text ''Chris'']] []) = 0
   \<and> recursivelyConcatenate2 [Text ''Hello, '', Element ''br'' () [] [],
       Element ''b'' () [(''fontWeight'', Str ''bolder'')] [Text ''Chris'']] [] [] [] =
      (''%cHello, '' @ [CHR 0x0A] @ ''%cChris'', [[], ''font-weight:bolder;''])
   \<and> count_markers (''%cHello, '' @ [CHR 0x0A] @ ''%cChris'') = 2
   \<and> prefix ''Chris'' (split_markers (''%cHello, '' @ [CHR 0x0A] @ ''%cChris'') ! Suc 1)"
proof -
  let ?xs = "[Text ''Hello, '',
       Element ''a'' (no_props\<lparr>href := Str ''https://x.org''\<rparr>) [(''color'', Str ''blue'')]
         [Text ''Chris'']]"
  let ?ys = "[Text ''Hello, '', Element ''br'' () [] [],
       Element ''b'' () [(''fontWeight'', Str ''bolder'')] [Text ''Chris'']]"
  let ?f1 = "''%cHello, %cChris https://x.org''"
  let ?f2 = "''%cHello, '' @ [CHR 0x0A] @ ''%cChris''"
  note m = markers_match_entries [of ?xs "[]" ?ys]
  note m1 = m [THEN conjunct1]
  note m3 = m [THEN conjunct2, THEN conjunct2, THEN conjunct1]
  note m4 = m [THEN conjunct2, THEN conjunct2, THEN conjunct2, THEN conjunct1]
  note m6 = m [THEN conjunct2, THEN conjunct2, THEN conjunct2, THEN conjunct2, THEN conjunct2]
  have s1: "stray (trace1 ?xs []) = 0" and s2: "stray (trace2 ?ys []) = 0"
    by code_simp+
  have r1: "recursivelyConcatenate1 ?xs [] [] [] = (?f1, [[], ''color:blue;''])"
    by code_simp
  have r2: "recursivelyConcatenate2 ?ys [] [] [] = (?f2, [[], ''font-weight:bolder;''])"
    by code_simp
  have t1: "snd (runs (trace1 ?xs []) ! 1) = ''Chris''"
    and t2: "snd (runs (trace2 ?ys []) ! 1) = ''Chris''"
    by code_simp+
  have l: "1 < length [[], ''color:blue;'']" "1 < length [[], ''font-weight:bolder;'']"
    by simp_all
  have "count_markers ?f1 = length [[], ''color:blue;''] + 0"
    using m1 unfolding r1 fst_conv snd_conv s1 .
  then have c1: "count_markers ?f1 = 2"
    by simp
  have "count_markers ?f2 = length [[], ''font-weight:bolder;''] + 0"
    using m4 unfolding r2 fst_conv snd_conv s2 .
  then have c2: "count_markers ?f2 = 2"
    by simp
  have p1: "prefix ''Chris'' (split_markers ?f1 ! Suc 1)"
    using m3 [THEN mp, OF s1, THEN conjunct2, rule_format, of 1] l(1)
    unfolding r1 fst_conv snd_conv t1 by (rule meta_mp)
  have p2: "prefix ''Chris'' (split_markers ?f2 ! Suc 1)"
    using m6 [THEN mp, OF s2, THEN conjunct2, rule_format, of 1] l(2)
    unfolding r2 fst_conv snd_conv t2 by (rule meta_mp)
  from s1 r1 c1 p1 s2 r2 c2 p2 show ?thesis by blast
qed

theorem marker_in_text_counterexample:
  "recursivelyConcatenate1 [Text ''50%cotton''] [] [] [] = (''%c50%cotton'', [[]])
   \<and> recursivelyConcatenate2 [Text ''50%cotton''] [] [] [] = (''%c50%cotton'', [[]])
   \<and> count_markers ''%c50%cotton'' = 2
   \<and> length [[] :: string] = 1"
  by code_simp

end
